theory Spec2Isabelle
  imports Main
begin

section \<open>Python values used by the converter\<close>

text \<open>
  The development embeds the class \<open>FlacToMkvConverter\<close> of
  \<open>flac_to_mkv_converter.py\<close>. A Python \<open>str\<close> is a \<^typ>\<open>string\<close>; each
  \<^typ>\<open>char\<close> stands for one code point below 256. Exceptions are values of
  \<open>py_exc\<close>, and a call that may raise returns \<open>py_exc + 'a\<close>.
\<close>

datatype py_exc =
    ValueError string
  | RuntimeError string
  | IndexError string
  | CalledProcessError string string
  | OtherError string

text \<open>
  \<open>str(e)\<close>. For \<open>CalledProcessError stderr msg\<close> the first field is the decoded
  \<open>e.stderr\<close> and the second is \<open>str(e)\<close>.
\<close>

fun exc_str :: "py_exc \<Rightarrow> string" where
  "exc_str (ValueError m) = m"
| "exc_str (RuntimeError m) = m"
| "exc_str (IndexError m) = m"
| "exc_str (CalledProcessError err m) = m"
| "exc_str (OtherError m) = m"

text \<open>
  A value that reaches a format field: the tag reader hands out \<open>str\<close>, an
  integer is what the format code \<open>d\<close> accepts.
\<close>

datatype py_val = PyInt int | PyStr string

subsection \<open>Decimal rendering and the format codes \<open>02d\<close>, \<open>03d\<close>\<close>

definition digit_char :: "nat \<Rightarrow> char" where
  "digit_char d = ''0123456789'' ! d"

text \<open>\<open>str(n)\<close> for a natural number: the digits of \<open>n div 10\<close>, then the last digit.\<close>

function str_nat :: "nat \<Rightarrow> string" where
  "str_nat n = (if n < 10 then [digit_char n] else str_nat (n div 10) @ [digit_char (n mod 10)])"
  by pat_completeness auto
termination
  by (relation "measure (\<lambda>n. n)") auto

declare str_nat.simps [simp del]

definition str_int :: "int \<Rightarrow> string" where
  "str_int i = (if i < 0 then CHR ''-'' # str_nat (nat (- i)) else str_nat (nat i))"

text \<open>
  \<open>format(i, '0Wd')\<close>: zero padding is sign aware, the sign counts towards the width.
\<close>

definition zero_pad :: "nat \<Rightarrow> int \<Rightarrow> string" where
  "zero_pad w i =
     (let ds = str_nat (nat \<bar>i\<bar>);
          sgn = (if i < 0 then ''-'' else '''')
      in sgn @ replicate (w - length sgn - length ds) CHR ''0'' @ ds)"

text \<open>
  \<open>f"{v:02d}"\<close>: the code \<open>d\<close> is defined for integers only; on a \<open>str\<close> Python
  raises \<open>ValueError\<close>.
\<close>

fun format_02d :: "py_val \<Rightarrow> py_exc + string" where
  "format_02d (PyInt i) = Inr (zero_pad 2 i)"
| "format_02d (PyStr s) = Inl (ValueError (''Unknown format code '' @ [CHR 0x27] @ ''d'' @ [CHR 0x27] @
        '' for object of type '' @ [CHR 0x27] @ ''str'' @ [CHR 0x27]))"

subsection \<open>\<open>str.split()\<close> and \<open>' '.join\<close>\<close>

text \<open>The code points below 256 for which \<open>str.isspace\<close> holds.\<close>

definition is_space :: "char \<Rightarrow> bool" where
  "is_space c =
     (let n = (of_char c :: nat)
      in (9 \<le> n \<and> n \<le> 13) \<or> (28 \<le> n \<and> n \<le> 32) \<or> n = 133 \<or> n = 160)"

text \<open>
  \<open>text.split()\<close> without arguments: runs of whitespace separate the words, and no
  empty word is returned. The second argument is the word being read.
\<close>

fun split_from :: "string \<Rightarrow> string \<Rightarrow> string list" where
  "split_from [] acc = (if acc = [] then [] else [acc])"
| "split_from (c # cs) acc =
     (if is_space c then (if acc = [] then split_from cs [] else acc # split_from cs [])
      else split_from cs (acc @ [c]))"

definition py_split :: "string \<Rightarrow> string list" where
  "py_split text = split_from text []"

fun py_join :: "string list \<Rightarrow> string" where
  "py_join [] = []"
| "py_join [w] = w"
| "py_join (w # v # ws) = w @ '' '' @ py_join (v # ws)"

section \<open>Word wrap\<close>

text \<open>
  \<open>wrap_text(text, font, max_width, draw)\<close>. The font and the drawing context enter
  only through \<open>draw.textbbox((0, 0), s, font=font)[2]\<close>, the right edge of the string
  rendered at the origin; \<open>width_of\<close> is that function.

  \<open>wrap_loop\<close> is the \<open>for word in words\<close> loop; it carries \<open>lines\<close> and
  \<open>current_line\<close> and returns both.
\<close>

fun wrap_loop ::
  "(string \<Rightarrow> int) \<Rightarrow> int \<Rightarrow> string list \<Rightarrow> string list \<Rightarrow> string list
     \<Rightarrow> string list \<times> string list" where
  "wrap_loop width_of max_width [] lines current_line = (lines, current_line)"
| "wrap_loop width_of max_width (word # words) lines current_line =
     (let test_line = py_join (current_line @ [word])
      in if width_of test_line \<le> max_width
         then wrap_loop width_of max_width words lines (current_line @ [word])
         else if current_line \<noteq> []
         then wrap_loop width_of max_width words (lines @ [py_join current_line]) [word]
         else wrap_loop width_of max_width words (lines @ [word]) [])"

definition wrap_text :: "string \<Rightarrow> (string \<Rightarrow> int) \<Rightarrow> int \<Rightarrow> string list" where
  "wrap_text text width_of max_width =
     (case wrap_loop width_of max_width (py_split text) [] [] of
        (lines, current_line) \<Rightarrow>
          if current_line \<noteq> [] then lines @ [py_join current_line] else lines)"

section \<open>Paths\<close>

text \<open>\<open>os.path.join(a, b)\<close> with two arguments, POSIX flavour.\<close>

definition path_join :: "string \<Rightarrow> string \<Rightarrow> string" where
  "path_join a b =
     (case b of
        c # _ \<Rightarrow>
          if c = CHR ''/'' then b
          else if a = [] \<or> last a = CHR ''/'' then a @ b
          else a @ ''/'' @ b
      | [] \<Rightarrow> if a = [] \<or> last a = CHR ''/'' then a else a @ ''/'')"

text \<open>\<open>os.path.basename(p)\<close>: what follows the last slash.\<close>

definition basename :: "string \<Rightarrow> string" where
  "basename p = rev (takeWhile (\<lambda>c. c \<noteq> CHR ''/'') (rev p))"

text \<open>
  \<open>os.path.splitext(b)[0]\<close> for a name \<open>b\<close> without a slash: the name is cut at its
  last dot, unless only dots precede that dot.
\<close>

definition splitext_root :: "string \<Rightarrow> string" where
  "splitext_root b =
     (let n = length (takeWhile (\<lambda>c. c \<noteq> CHR ''.'') (rev b))
      in if n < length b \<and> (\<exists>c \<in> set (take (length b - n - 1) b). c \<noteq> CHR ''.'')
         then take (length b - n - 1) b
         else b)"

section \<open>The environment of a conversion\<close>

text \<open>
  What the converter obtains from libraries and from the operating system is a field of
  the environment. The type \<open>'d\<close> is that of \<open>audio.info.length\<close> and of the sums the
  converter forms from it; its arithmetic is a parameter as well, so that nothing proved
  here rests on a law that floating point does not have: \<open>num_zero\<close> is the literal
  \<open>0\<close>, \<open>num_add\<close> is \<open>+\<close>, \<open>num_str\<close> is \<open>str\<close> and \<open>num_ms x\<close> is
  \<open>int(x * 1000)\<close>.
\<close>

record 'd flac_info =
  info_sample_rate :: int
  info_bits_per_sample :: int
  info_channels :: int
  info_length :: 'd

text \<open>An opened file: \<open>tags key\<close> is the list stored under \<open>key\<close>, if there is one.\<close>

record 'd flac_audio =
  tags :: "string \<Rightarrow> string list option"
  info :: "'d flac_info"

record image =
  im_source :: string
  im_width :: int
  im_height :: int

datatype font = TrueType string nat | DefaultFont

record 'd env =
  flac_open :: "string \<Rightarrow> py_exc + 'd flac_audio"
  image_open :: "string \<Rightarrow> py_exc + image"
  truetype :: "string \<Rightarrow> nat \<Rightarrow> py_exc + font"
  textbbox_right :: "font \<Rightarrow> string \<Rightarrow> int"
  mkdtemp :: string
  subprocess_run :: "string list \<Rightarrow> py_exc + unit"
  num_zero :: 'd
  num_add :: "'d \<Rightarrow> 'd \<Rightarrow> 'd"
  num_str :: "'d \<Rightarrow> string"
  num_ms :: "'d \<Rightarrow> int"

section \<open>Metadata Reader\<close>

record 'd track_metadata =
  md_title :: string
  md_artist :: string
  md_album :: string
  md_track_number :: py_val
  md_duration :: 'd
  md_sample_rate :: int
  md_bits_per_sample :: int
  md_channels :: int

text \<open>\<open>audio.get(key, [dflt])[0]\<close>; indexing an empty list raises \<open>IndexError\<close>.\<close>

definition get_first :: "'d flac_audio \<Rightarrow> string \<Rightarrow> string \<Rightarrow> py_exc + string" where
  "get_first audio key dflt =
     (case (case tags audio key of None \<Rightarrow> [dflt] | Some vs \<Rightarrow> vs) of
        [] \<Rightarrow> Inl (IndexError ''list index out of range'')
      | v # _ \<Rightarrow> Inr v)"

text \<open>The dictionary of the \<open>except\<close> branch of \<open>get_track_metadata\<close>.\<close>

definition default_metadata :: "'d env \<Rightarrow> string \<Rightarrow> 'd track_metadata" where
  "default_metadata env flac_path =
     \<lparr> md_title = splitext_root (basename flac_path),
       md_artist = ''Unknown Artist'',
       md_album = ''Unknown Album'',
       md_track_number = PyStr ''1'',
       md_duration = num_zero env,
       md_sample_rate = 44100,
       md_bits_per_sample = 16,
       md_channels = 2 \<rparr>"

text \<open>The \<open>try\<close> block of \<open>get_track_metadata\<close>; every tag value is a \<open>str\<close>.\<close>

definition read_metadata :: "'d env \<Rightarrow> string \<Rightarrow> py_exc + 'd track_metadata" where
  "read_metadata env flac_path =
     (case flac_open env flac_path of
        Inl e \<Rightarrow> Inl e
      | Inr audio \<Rightarrow>
          (case get_first audio ''TITLE'' (splitext_root (basename flac_path)) of
             Inl e \<Rightarrow> Inl e
           | Inr t \<Rightarrow>
          (case get_first audio ''ARTIST'' ''Unknown Artist'' of
             Inl e \<Rightarrow> Inl e
           | Inr ar \<Rightarrow>
          (case get_first audio ''ALBUM'' ''Unknown Album'' of
             Inl e \<Rightarrow> Inl e
           | Inr al \<Rightarrow>
          (case get_first audio ''TRACKNUMBER'' ''1'' of
             Inl e \<Rightarrow> Inl e
           | Inr track_num \<Rightarrow>
               Inr \<lparr> md_title = t,
                     md_artist = ar,
                     md_album = al,
                     md_track_number = PyStr track_num,
                     md_duration = info_length (info audio),
                     md_sample_rate = info_sample_rate (info audio),
                     md_bits_per_sample = info_bits_per_sample (info audio),
                     md_channels = info_channels (info audio) \<rparr>)))))"

definition get_track_metadata :: "'d env \<Rightarrow> string \<Rightarrow> 'd track_metadata" where
  "get_track_metadata env flac_path =
     (case read_metadata env flac_path of
        Inr metadata \<Rightarrow> metadata
      | Inl e \<Rightarrow> default_metadata env flac_path)"

section \<open>Frame Composer\<close>

text \<open>
  A frame is the canvas of \<open>Image.new('RGB', (width, height), color='black')\<close> together
  with the drawing calls made on it, in order. \<open>Image.open\<close> and the decoding that
  \<open>resize\<close> triggers sit in one \<open>try\<close> block with one handler; \<open>image_open\<close> stands
  for both. Drawing on the canvas in memory does not fail.
\<close>

datatype draw_op =
    Paste image int int
  | Rectangle int int int int string nat
  | DrawText int int string string "font option" "string option"

record frame =
  fr_width :: int
  fr_height :: int
  fr_color :: string
  fr_ops :: "draw_op list"

definition resize :: "image \<Rightarrow> int \<Rightarrow> int \<Rightarrow> image" where
  "resize im w h = im\<lparr> im_width := w, im_height := h \<rparr>"

text \<open>The first \<open>try\<close>/\<open>except\<close> of \<open>create_video_frame\<close>: cover art or placeholder.\<close>

definition cover_ops :: "'d env \<Rightarrow> string \<Rightarrow> int \<Rightarrow> int \<Rightarrow> draw_op list" where
  "cover_ops env cover_art_path width height =
     (case image_open env cover_art_path of
        Inr cover \<Rightarrow>
          (let cover_size = min (height - 100) (width div 2 - 100);
               cover' = resize cover cover_size cover_size;
               cover_x = (width div 2 - cover_size) div 2;
               cover_y = (height - cover_size) div 2
           in [Paste cover' cover_x cover_y])
      | Inl e \<Rightarrow>
          (let placeholder_size = min (height - 100) (width div 2 - 100);
               placeholder_x = (width div 2 - placeholder_size) div 2;
               placeholder_y = (height - placeholder_size) div 2
           in [Rectangle placeholder_x placeholder_y
                 (placeholder_x + placeholder_size) (placeholder_y + placeholder_size)
                 ''white'' 2,
               DrawText (placeholder_x + placeholder_size div 2)
                 (placeholder_y + placeholder_size div 2)
                 ''No Cover Art'' ''white'' None (Some ''mm'')]))"

text \<open>
  The inner \<open>try\<close>/\<open>except\<close>: three sizes of Helvetica, or the built-in font for all
  three as soon as one of them cannot be loaded.
\<close>

definition load_fonts :: "'d env \<Rightarrow> font \<times> font \<times> font" where
  "load_fonts env =
     (case truetype env ''/System/Library/Fonts/Helvetica.ttc'' 72 of
        Inl e \<Rightarrow> (DefaultFont, DefaultFont, DefaultFont)
      | Inr title_font \<Rightarrow>
     (case truetype env ''/System/Library/Fonts/Helvetica.ttc'' 48 of
        Inl e \<Rightarrow> (DefaultFont, DefaultFont, DefaultFont)
      | Inr info_font \<Rightarrow>
     (case truetype env ''/System/Library/Fonts/Helvetica.ttc'' 36 of
        Inl e \<Rightarrow> (DefaultFont, DefaultFont, DefaultFont)
      | Inr small_font \<Rightarrow> (title_font, info_font, small_font))))"

text \<open>The loop \<open>for line in lines\<close>: the calls it makes and the final \<open>y_pos\<close>.\<close>

fun draw_lines :: "int \<Rightarrow> int \<Rightarrow> font \<Rightarrow> string list \<Rightarrow> draw_op list \<times> int" where
  "draw_lines x y_pos fnt [] = ([], y_pos)"
| "draw_lines x y_pos fnt (line # lines) =
     (case draw_lines x (y_pos + 80) fnt lines of
        (ops, y') \<Rightarrow> (DrawText x y_pos line ''white'' (Some fnt) None # ops, y'))"

text \<open>
  The second \<open>try\<close> block. The only statement in it that raises is the format field
  \<open>{track_number:02d}\<close>, and it precedes every drawing call of the block.
\<close>

definition text_ops ::
  "'d env \<Rightarrow> string \<Rightarrow> py_val \<Rightarrow> string \<Rightarrow> string \<Rightarrow> int \<Rightarrow> int \<Rightarrow> py_exc + draw_op list" where
  "text_ops env track_title track_number artist album width height =
     (case load_fonts env of
        (title_font, info_font, small_font) \<Rightarrow>
          (let text_start_x = width div 2 + 50;
               text_width = width div 2 - 100
           in case format_02d track_number of
                Inl e \<Rightarrow> Inl e
              | Inr tn \<Rightarrow>
                  (let track_text = tn @ ''. '' @ track_title;
                       y_pos = height div 2 - 100;
                       lines = wrap_text track_text (textbbox_right env title_font) text_width
                   in case draw_lines text_start_x y_pos title_font lines of
                        (ops, y1) \<Rightarrow>
                          Inr (ops @
                            [DrawText text_start_x (y1 + 40) artist ''lightgray''
                               (Some info_font) None,
                             DrawText text_start_x (y1 + 40 + 60) album ''lightgray''
                               (Some small_font) None]))))"

definition create_video_frame ::
  "'d env \<Rightarrow> string \<Rightarrow> string \<Rightarrow> py_val \<Rightarrow> string \<Rightarrow> string \<Rightarrow> frame" where
  "create_video_frame env cover_art_path track_title track_number artist album =
     (let width = 1920; height = 1080
      in \<lparr> fr_width = width, fr_height = height, fr_color = ''black'',
           fr_ops = cover_ops env cover_art_path width height @
             (case text_ops env track_title track_number artist album width height of
                Inl e \<Rightarrow> []
              | Inr ops \<Rightarrow> ops) \<rparr>)"


section \<open>Chapter Index Builder and the conversion\<close>

record 'd chapter_entry =
  ch_start :: 'd
  ch_end :: 'd
  ch_title :: string

definition newline :: string where
  "newline = [CHR 0x0A]"

text \<open>
  \<open>create_chapter_file\<close>: the text that the calls of \<open>f.write\<close> leave in the file.
  \<open>write_chapters\<close> is the loop over \<open>chapter_data\<close>, with the text written so far.
\<close>

fun write_chapters :: "'d env \<Rightarrow> 'd chapter_entry list \<Rightarrow> string \<Rightarrow> string" where
  "write_chapters env [] f = f"
| "write_chapters env (chapter # chapter_data) f =
     (let start_time = num_ms env (ch_start chapter);
          end_time = num_ms env (ch_end chapter)
      in write_chapters env chapter_data
           (f @ (''[CHAPTER]'' @ newline)
              @ (''TIMEBASE=1/1000'' @ newline)
              @ (''START='' @ str_int start_time @ newline)
              @ (''END='' @ str_int end_time @ newline)
              @ (''title='' @ ch_title chapter @ newline)))"

definition create_chapter_file :: "'d env \<Rightarrow> 'd chapter_entry list \<Rightarrow> string" where
  "create_chapter_file env chapter_data = write_chapters env chapter_data ('';FFMETADATA1'' @ newline)"




text \<open>
  What a run does to the outside, in order: calls of the progress callback, files
  written, external commands, and the removal of the scratch directory.
\<close>

datatype event =
    Progress string int
  | SaveFrame string frame
  | Subprocess "string list"
  | WriteFile string string
  | Rmtree string

record job =
  flac_files :: "string list"
  cover_art_path :: string
  output_path :: string

text \<open>The local variables of \<open>convert_to_mkv\<close> that the loop updates, and the events.\<close>

record 'd loop_state =
  total_duration :: 'd
  chapter_data :: "'d chapter_entry list"
  video_segments :: "string list"
  trace :: "event list"

definition emit :: "event \<Rightarrow> 'd loop_state \<Rightarrow> 'd loop_state" where
  "emit ev st = st\<lparr> trace := trace st @ [ev] \<rparr>"

definition frame_path_of :: "'d env \<Rightarrow> nat \<Rightarrow> string" where
  "frame_path_of env i = path_join (mkdtemp env) (''frame_'' @ zero_pad 3 (int i) @ ''.png'')"

definition video_path_of :: "'d env \<Rightarrow> nat \<Rightarrow> string" where
  "video_path_of env i = path_join (mkdtemp env) (''video_'' @ zero_pad 3 (int i) @ ''.mkv'')"

text \<open>The argument list \<open>cmd\<close> of the loop body.\<close>

definition encode_cmd :: "string \<Rightarrow> string \<Rightarrow> string \<Rightarrow> string \<Rightarrow> string list" where
  "encode_cmd frame_path flac_file duration_str video_path =
     [''ffmpeg'', ''-y'',
      ''-loop'', ''1'', ''-i'', frame_path,
      ''-i'', flac_file,
      ''-c:v'', ''libx264'', ''-preset'', ''medium'', ''-crf'', ''18'',
      ''-c:a'', ''copy'',
      ''-t'', duration_str,
      ''-pix_fmt'', ''yuv420p'',
      ''-r'', ''1'',
      video_path]"

text \<open>
  One pass of \<open>for i, flac_file in enumerate(self.flac_files)\<close>. The result is the
  exception that left the body, if one did, and the state reached. \<open>cb\<close> tells whether
  a progress callback was passed, \<open>n\<close> is \<open>len(self.flac_files)\<close>.
\<close>

definition process_track ::
  "'d env \<Rightarrow> job \<Rightarrow> bool \<Rightarrow> nat \<Rightarrow> nat \<Rightarrow> string \<Rightarrow> 'd loop_state
     \<Rightarrow> py_exc option \<times> 'd loop_state" where
  "process_track env jb cb n i flac_file st =
     (let st1 = (if cb
                 then emit (Progress (''Processing track '' @ str_nat (i + 1) @ ''/'' @ str_nat n)
                              ((int i * 50) div int n)) st
                 else st);
          metadata = get_track_metadata env flac_file;
          frame = create_video_frame env (cover_art_path jb) (md_title metadata)
                    (md_track_number metadata) (md_artist metadata) (md_album metadata);
          frame_path = frame_path_of env i;
          st2 = emit (SaveFrame frame_path frame) st1;
          video_path = video_path_of env i;
          duration = md_duration metadata;
          cmd = encode_cmd frame_path flac_file (num_str env duration) video_path;
          st3 = emit (Subprocess cmd) st2
      in case subprocess_run env cmd of
           Inl e \<Rightarrow> (Some e, st3)
         | Inr u \<Rightarrow>
             (let st4 = st3\<lparr> video_segments := video_segments st3 @ [video_path] \<rparr>
              in case format_02d (md_track_number metadata) of
                   Inl e \<Rightarrow> (Some e, st4)
                 | Inr tn \<Rightarrow>
                     (None,
                      st4\<lparr> chapter_data := chapter_data st4 @
                             [\<lparr> ch_start = total_duration st4,
                                ch_end = num_add env (total_duration st4) duration,
                                ch_title = tn @ ''. '' @ md_title metadata \<rparr>],
                           total_duration := num_add env (total_duration st4) duration \<rparr>)))"

fun process_tracks ::
  "'d env \<Rightarrow> job \<Rightarrow> bool \<Rightarrow> nat \<Rightarrow> nat \<Rightarrow> string list \<Rightarrow> 'd loop_state
     \<Rightarrow> py_exc option \<times> 'd loop_state" where
  "process_tracks env jb cb n i [] st = (None, st)"
| "process_tracks env jb cb n i (flac_file # rest) st =
     (case process_track env jb cb n i flac_file st of
        (Some e, st') \<Rightarrow> (Some e, st')
      | (None, st') \<Rightarrow> process_tracks env jb cb n (Suc i) rest st')"

text \<open>The loop from its initial state.\<close>

definition convert_loop :: "'d env \<Rightarrow> job \<Rightarrow> bool \<Rightarrow> py_exc option \<times> 'd loop_state" where
  "convert_loop env jb cb =
     process_tracks env jb cb (length (flac_files jb)) 0 (flac_files jb)
       \<lparr> total_duration = num_zero env, chapter_data = [], video_segments = [], trace = [] \<rparr>"

text \<open>The manifest \<open>concat.txt\<close>.\<close>

definition concat_manifest :: "string list \<Rightarrow> string" where
  "concat_manifest segs = concat (map (\<lambda>video_path. ''file '' @ [CHR 0x27] @ video_path @ [CHR 0x27] @ newline) segs)"

definition combine_cmd :: "string \<Rightarrow> string \<Rightarrow> string \<Rightarrow> string list" where
  "combine_cmd concat_file chapter_file out =
     [''ffmpeg'', ''-y'',
      ''-f'', ''concat'', ''-safe'', ''0'', ''-i'', concat_file,
      ''-i'', chapter_file,
      ''-c'', ''copy'',
      ''-map_metadata'', ''1'',
      out]"

text \<open>What follows the loop inside the \<open>try\<close> block.\<close>

definition combine :: "'d env \<Rightarrow> job \<Rightarrow> bool \<Rightarrow> 'd loop_state \<Rightarrow> py_exc option \<times> 'd loop_state" where
  "combine env jb cb st =
     (let st1 = (if cb then emit (Progress ''Combining segments...'' 50) st else st);
          chapter_file = path_join (mkdtemp env) ''chapters.txt'';
          st2 = emit (WriteFile chapter_file (create_chapter_file env (chapter_data st1))) st1;
          concat_file = path_join (mkdtemp env) ''concat.txt'';
          st3 = emit (WriteFile concat_file (concat_manifest (video_segments st2))) st2;
          st4 = (if cb then emit (Progress ''Creating final MKV...'' 75) st3 else st3);
          cmd = combine_cmd concat_file chapter_file (output_path jb);
          st5 = emit (Subprocess cmd) st4
      in case subprocess_run env cmd of
           Inl e \<Rightarrow> (Some e, st5)
         | Inr u \<Rightarrow> (None, if cb then emit (Progress ''Complete!'' 100) st5 else st5))"

text \<open>
  The two \<open>except\<close> clauses: a failed external command becomes
  \<open>RuntimeError("FFmpeg error: ...")\<close> with its standard error if there is any, every
  other exception becomes \<open>RuntimeError("Conversion error: ...")\<close>.
\<close>

fun wrap_exc :: "py_exc \<Rightarrow> py_exc" where
  "wrap_exc (CalledProcessError err msg) =
     RuntimeError (''FFmpeg error: '' @ (if err \<noteq> [] then err else msg))"
| "wrap_exc e = RuntimeError (''Conversion error: '' @ exc_str e)"

text \<open>
  \<open>convert_to_mkv\<close>: what the call returns or raises, and the events of the run. The
  scratch directory is removed on every path that created it.
\<close>

definition convert_to_mkv :: "'d env \<Rightarrow> job \<Rightarrow> bool \<Rightarrow> (py_exc + bool) \<times> event list" where
  "convert_to_mkv env jb cb =
     (if flac_files jb = [] \<or> cover_art_path jb = [] \<or> output_path jb = []
      then (Inl (ValueError ''Missing required files or output path''), [])
      else
        (case convert_loop env jb cb of
           (Some e, st) \<Rightarrow> (Inl (wrap_exc e), trace st @ [Rmtree (mkdtemp env)])
         | (None, st) \<Rightarrow>
             (case combine env jb cb st of
                (Some e, st') \<Rightarrow> (Inl (wrap_exc e), trace st' @ [Rmtree (mkdtemp env)])
              | (None, st') \<Rightarrow> (Inr True, trace st' @ [Rmtree (mkdtemp env)]))))"



section \<open>Concrete runs\<close>

text \<open>
  An environment over whole seconds in which every external command succeeds, the cover
  art \<open>cover.jpg\<close> is a 1000 by 500 image, and two files can be read: \<open>/m/01.flac\<close>
  carries the tags \<open>TITLE=Intro\<close> and \<open>TRACKNUMBER=1\<close> and lasts 180 seconds,
  \<open>/m/02.flac\<close> carries \<open>TITLE=Outro\<close> and \<open>TRACKNUMBER=2\<close> and lasts 200 seconds.
  Every other path is unreadable.
\<close>

definition demo_tags :: "string \<Rightarrow> string \<Rightarrow> string \<Rightarrow> string list option" where
  "demo_tags t n key =
     (if key = ''TITLE'' then Some [t] else if key = ''TRACKNUMBER'' then Some [n] else None)"

definition demo_audio :: "string \<Rightarrow> string \<Rightarrow> int \<Rightarrow> int flac_audio" where
  "demo_audio t n secs =
     \<lparr> tags = demo_tags t n,
       info = \<lparr> info_sample_rate = 96000, info_bits_per_sample = 24, info_channels = 2,
                info_length = secs \<rparr> \<rparr>"

definition demo_env :: "int env" where
  "demo_env =
     \<lparr> flac_open = (\<lambda>p. if p = ''/m/01.flac'' then Inr (demo_audio ''Intro'' ''1'' 180)
                         else if p = ''/m/02.flac'' then Inr (demo_audio ''Outro'' ''2'' 200)
                         else Inl (OtherError ''not a valid FLAC file'')),
       image_open = (\<lambda>p. if p = ''cover.jpg''
                          then Inr \<lparr> im_source = p, im_width = 1000, im_height = 500 \<rparr>
                          else Inl (OtherError ''cannot identify image file'')),
       truetype = (\<lambda>p size. Inl (OtherError ''cannot open resource'')),
       textbbox_right = (\<lambda>f s. 6 * int (length s)),
       mkdtemp = ''/tmp/flac_to_mkv_x'',
       subprocess_run = (\<lambda>cmd. Inr ()),
       num_zero = 0,
       num_add = (\<lambda>a b. a + b),
       num_str = str_int,
       num_ms = (\<lambda>x. x * 1000) \<rparr>"

definition demo_job :: "string list \<Rightarrow> job" where
  "demo_job fs = \<lparr> flac_files = fs, cover_art_path = ''cover.jpg'', output_path = ''out.mkv'' \<rparr>"


section \<open>Predicates used in the proofs\<close>

text \<open>A word as \<open>str.split()\<close> returns it: not empty, no whitespace inside.\<close>

definition clean_word :: "string \<Rightarrow> bool" where
  "clean_word x = (x \<noteq> [] \<and> (\<forall>c \<in> set x. \<not> is_space c))"

text \<open>
  A line is acceptable when it renders within the column, or is one of the words of the
  text and that word alone is wider than the column. The line being built is acceptable
  when it is empty, fits, or holds a single word.
\<close>

definition line_ok :: "string set \<Rightarrow> (string \<Rightarrow> int) \<Rightarrow> int \<Rightarrow> string \<Rightarrow> bool" where
  "line_ok W w m l = (w l \<le> m \<or> (l \<in> W \<and> m < w l))"

definition cur_ok :: "string set \<Rightarrow> (string \<Rightarrow> int) \<Rightarrow> int \<Rightarrow> string list \<Rightarrow> bool" where
  "cur_ok W w m cur = (cur = [] \<or> w (py_join cur) \<le> m \<or> (\<exists>x \<in> W. cur = [x]))"

text \<open>A renderer with fixed pitch: every character is one unit wide.\<close>

definition fixed_width :: "string \<Rightarrow> int" where
  "fixed_width s = int (length s)"

text \<open>
  Greedy wrapping, read off the returned lines. A line of two or more words was built by
  appending one word at a time, each time after the test \<open>width <= max_width\<close> on the
  words so far had passed: \<open>prefixes_fit\<close> replays these tests on the words of a line.
\<close>

fun prefixes_fit :: "(string \<Rightarrow> int) \<Rightarrow> int \<Rightarrow> string list \<Rightarrow> string list \<Rightarrow> bool" where
  "prefixes_fit w m acc [] = True"
| "prefixes_fit w m acc (x # xs) =
     (w (py_join (acc @ [x])) \<le> m \<and> prefixes_fit w m (acc @ [x]) xs)"

definition line_greedy :: "(string \<Rightarrow> int) \<Rightarrow> int \<Rightarrow> string list \<Rightarrow> bool" where
  "line_greedy w m ws = (case ws of [] \<Rightarrow> True | x # xs \<Rightarrow> prefixes_fit w m [x] xs)"

text \<open>
  A break between a line and its successor is forced when the test failed there: the line
  followed by a blank and the first word of the successor is too wide, or the line alone is.
\<close>

definition break_forced :: "(string \<Rightarrow> int) \<Rightarrow> int \<Rightarrow> string \<Rightarrow> string \<Rightarrow> bool" where
  "break_forced w m l l' =
     (case py_split l' of [] \<Rightarrow> False | y # ys \<Rightarrow> m < w (l @ '' '' @ y) \<or> m < w l)"

fun breaks_forced :: "(string \<Rightarrow> int) \<Rightarrow> int \<Rightarrow> string list \<Rightarrow> bool" where
  "breaks_forced w m [] = True"
| "breaks_forced w m [l] = True"
| "breaks_forced w m (l # l' # ls) = (break_forced w m l l' \<and> breaks_forced w m (l' # ls))"

text \<open>The same for the last finished line and the line being built.\<close>

definition tail_forced :: "(string \<Rightarrow> int) \<Rightarrow> int \<Rightarrow> string list \<Rightarrow> string list \<Rightarrow> bool" where
  "tail_forced w m lines cur =
     (lines = [] \<or> m < w (last lines)
      \<or> (case cur of [] \<Rightarrow> False | y # ys \<Rightarrow> m < w (last lines @ '' '' @ y)))"

text \<open>A line is normal when it is its own words joined by single blanks.\<close>

definition line_normal :: "string \<Rightarrow> bool" where
  "line_normal l = (py_join (py_split l) = l)"

text \<open>
  The exception of the format field \<open>{...:02d}\<close> applied to a \<open>str\<close>.
\<close>

definition format_d_error :: py_exc where
  "format_d_error = ValueError (''Unknown format code '' @ [CHR 0x27] @ ''d'' @ [CHR 0x27] @
        '' for object of type '' @ [CHR 0x27] @ ''str'' @ [CHR 0x27])"

text \<open>The \<open>ffmpeg\<close> command of track \<open>i\<close>, and the exception that ends the loop body there.\<close>

definition track_cmd :: "'d env \<Rightarrow> nat \<Rightarrow> string \<Rightarrow> string list" where
  "track_cmd env i f =
     encode_cmd (frame_path_of env i) f
       (num_str env (md_duration (get_track_metadata env f))) (video_path_of env i)"

definition track_exc :: "'d env \<Rightarrow> nat \<Rightarrow> string \<Rightarrow> py_exc" where
  "track_exc env i f =
     (case subprocess_run env (track_cmd env i f) of Inl e \<Rightarrow> e | Inr u \<Rightarrow> format_d_error)"

text \<open>Two images have the same proportions; a drawing call pastes an image.\<close>

definition same_aspect :: "image \<Rightarrow> image \<Rightarrow> bool" where
  "same_aspect a b = (im_width a * im_height b = im_height a * im_width b)"

fun is_paste :: "draw_op \<Rightarrow> bool" where
  "is_paste (Paste im x y) = True"
| "is_paste op = False"

text \<open>
  A pasted image sits in the left half of the frame with equal margins left and right of
  it in that half, and equal margins above and below it.
\<close>

definition centred_left :: "frame \<Rightarrow> draw_op \<Rightarrow> bool" where
  "centred_left fr op =
     (case op of
        Paste im x y \<Rightarrow>
          0 < x \<and> 0 < y \<and> x + im_width im + x = fr_width fr div 2
          \<and> y + im_height im + y = fr_height fr
      | Rectangle x0 y0 x1 y1 c n \<Rightarrow> False
      | DrawText x y s c f a \<Rightarrow> False)"

text \<open>The cover of the example environment, and two chapters of an example album.\<close>

definition demo_cover :: image where
  "demo_cover = \<lparr> im_source = ''cover.jpg'', im_width = 1000, im_height = 500 \<rparr>"



section \<open>Evaluating decimal rendering\<close>





section \<open>Word wrap keeps the words\<close>

lemma split_from_clean:
  "\<forall>c \<in> set acc. \<not> is_space c \<Longrightarrow> x \<in> set (split_from t acc) \<Longrightarrow> clean_word x"
proof (induction t arbitrary: acc)
  case Nil
  then show ?case by (auto simp: clean_word_def split: if_splits)
next
  case (Cons c cs)
  show ?case
  proof (cases "is_space c")
    case True
    then have "x = acc \<and> acc \<noteq> [] \<or> x \<in> set (split_from cs [])"
      using Cons.prems(2) by (auto split: if_splits)
    then show ?thesis
      using Cons.IH [of "[]"] Cons.prems(1) by (auto simp: clean_word_def)
  next
    case False
    then have "x \<in> set (split_from cs (acc @ [c]))"
      using Cons.prems(2) by simp
    then show ?thesis
      using Cons.IH [of "acc @ [c]"] Cons.prems(1) False by simp
  qed
qed

lemma py_split_clean: "x \<in> set (py_split t) \<Longrightarrow> clean_word x"
  using split_from_clean [of "[]" x t] by (simp add: py_split_def)

lemma split_from_word:
  "\<forall>c \<in> set x. \<not> is_space c \<Longrightarrow> split_from (x @ t) acc = split_from t (acc @ x)"
  by (induction x arbitrary: acc) auto

lemma is_space_blank: "is_space CHR '' ''"
  by (simp add: is_space_def)

lemma split_from_join:
  "\<forall>x \<in> set ws. clean_word x \<Longrightarrow> clean_word acc \<Longrightarrow>
     split_from (CHR '' '' # py_join ws) acc = acc # ws"
proof (induction ws arbitrary: acc rule: py_join.induct)
  case 1
  then show ?case by (simp add: is_space_blank clean_word_def)
next
  case (2 w)
  then show ?case
    using split_from_word [of w "[]" "[]"]
    by (simp add: is_space_blank clean_word_def)
next
  case (3 w v ws)
  have "split_from (CHR '' '' # py_join (v # ws)) w = w # v # ws"
    using 3 by simp
  then show ?case
    using 3(2,3) split_from_word [of w "CHR '' '' # py_join (v # ws)" "[]"]
    by (simp add: is_space_blank clean_word_def)
qed

lemma py_split_join: "\<forall>x \<in> set ws. clean_word x \<Longrightarrow> py_split (py_join ws) = ws"
proof (cases ws rule: py_join.cases)
  case 1
  then show ?thesis by (simp add: py_split_def)
next
  case (2 w)
  assume "\<forall>x \<in> set ws. clean_word x"
  then show ?thesis
    using 2 split_from_word [of w "[]" "[]"] by (simp add: py_split_def clean_word_def)
next
  case (3 w v us)
  assume a: "\<forall>x \<in> set ws. clean_word x"
  have "split_from (CHR '' '' # py_join (v # us)) w = w # v # us"
    using a 3 split_from_join [of "v # us" w] by simp
  then show ?thesis
    using a 3 split_from_word [of w "CHR '' '' # py_join (v # us)" "[]"]
    by (simp add: py_split_def clean_word_def)
qed

lemma py_join_nonempty: "ws \<noteq> [] \<Longrightarrow> \<forall>x \<in> set ws. x \<noteq> [] \<Longrightarrow> py_join ws \<noteq> []"
  by (cases ws rule: py_join.cases) auto

lemma wrap_loop_words:
  "\<forall>x \<in> set words. clean_word x \<Longrightarrow> \<forall>x \<in> set cur. clean_word x \<Longrightarrow>
   wrap_loop w m words lines cur = (lines', cur') \<Longrightarrow>
   concat (map py_split lines') @ cur' = concat (map py_split lines) @ cur @ words
   \<and> (\<forall>x \<in> set cur'. clean_word x)
   \<and> ([] \<notin> set lines \<longrightarrow> [] \<notin> set lines')"
proof (induction words arbitrary: lines cur)
  case Nil
  then show ?case by simp
next
  case (Cons x xs)
  have x: "clean_word x" and xs: "\<forall>y \<in> set xs. clean_word y"
    using Cons.prems(1) by simp_all
  have sx: "py_split x = [x]" using py_split_join [of "[x]"] x by simp
  have sc: "py_split (py_join cur) = cur" using py_split_join Cons.prems(2) by simp
  show ?case
  proof (cases "w (py_join (cur @ [x])) \<le> m")
    case True
    then have "wrap_loop w m xs lines (cur @ [x]) = (lines', cur')"
      using Cons.prems(3) by simp
    then show ?thesis
      using Cons.IH [of "cur @ [x]" lines] xs x Cons.prems(2) by simp
  next
    case False
    show ?thesis
    proof (cases "cur = []")
      case True
      then have "wrap_loop w m xs (lines @ [x]) [] = (lines', cur')"
        using Cons.prems(3) False by simp
      then show ?thesis
        using Cons.IH [of "[]" "lines @ [x]"] xs x sx True by (auto simp: clean_word_def)
    next
      case ne: False
      then have "wrap_loop w m xs (lines @ [py_join cur]) [x] = (lines', cur')"
        using Cons.prems(3) False by simp
      moreover have "py_join cur \<noteq> []"
        using py_join_nonempty [of cur] ne Cons.prems(2) by (simp add: clean_word_def)
      ultimately show ?thesis
        using Cons.IH [of "[x]" "lines @ [py_join cur]"] xs x sc by auto
    qed
  qed
qed

text \<open>
  Claim C10. For every text, renderer and column width, splitting the lines that
  \<open>wrap_text\<close> returns and concatenating the words in order gives exactly the words
  of the text, and no returned line is empty.
\<close>

theorem wrap_text_preserves_words:
  "concat (map py_split (wrap_text text w m)) = py_split text \<and> [] \<notin> set (wrap_text text w m)"
proof -
  obtain lines cur where r: "wrap_loop w m (py_split text) [] [] = (lines, cur)"
    by (cases "wrap_loop w m (py_split text) [] []")
  have cl: "\<forall>x \<in> set (py_split text). clean_word x"
    using py_split_clean by blast
  have inv: "concat (map py_split lines) @ cur = py_split text"
    "\<forall>x \<in> set cur. clean_word x" "[] \<notin> set lines"
    using wrap_loop_words [OF cl _ r] by simp_all
  show ?thesis
  proof (cases "cur = []")
    case True
    then show ?thesis using inv r by (simp add: wrap_text_def)
  next
    case False
    have "py_split (py_join cur) = cur" using py_split_join inv(2) by simp
    moreover have "py_join cur \<noteq> []"
      using py_join_nonempty [of cur] False inv(2) by (simp add: clean_word_def)
    ultimately show ?thesis using inv r False by (simp add: wrap_text_def)
  qed
qed


section \<open>Word wrap and the column width\<close>

lemma wrap_loop_count:
  "wrap_loop w m words lines cur = (lines', cur') \<Longrightarrow>
     length lines \<le> length lines' \<and> (cur \<noteq> [] \<longrightarrow> cur' \<noteq> [])"
proof (induction words arbitrary: lines cur)
  case Nil
  then show ?case by simp
next
  case (Cons x xs)
  show ?case
  proof (cases "w (py_join (cur @ [x])) \<le> m")
    case True
    then show ?thesis using Cons.IH [of lines "cur @ [x]"] Cons.prems by simp
  next
    case False
    show ?thesis
    proof (cases "cur = []")
      case True
      then show ?thesis using Cons.IH [of "lines @ [x]" "[]"] Cons.prems False by simp
    next
      case ne: False
      then show ?thesis
        using Cons.IH [of "lines @ [py_join cur]" "[x]"] Cons.prems False by simp
    qed
  qed
qed

lemma wrap_loop_no_flush:
  "wrap_loop w m words lines cur = (lines', cur') \<Longrightarrow> length lines' = length lines \<Longrightarrow>
     cur' = cur @ words \<and> (words \<noteq> [] \<longrightarrow> w (py_join (cur @ words)) \<le> m)"
proof (induction words arbitrary: lines cur)
  case Nil
  then show ?case by simp
next
  case (Cons x xs)
  show ?case
  proof (cases "w (py_join (cur @ [x])) \<le> m")
    case True
    then have r: "wrap_loop w m xs lines (cur @ [x]) = (lines', cur')"
      using Cons.prems(1) by simp
    show ?thesis
      using Cons.IH [OF r Cons.prems(2)] True by (cases "xs = []") simp_all
  next
    case False
    show ?thesis
    proof (cases "cur = []")
      case True
      then have "wrap_loop w m xs (lines @ [x]) [] = (lines', cur')"
        using Cons.prems(1) False by simp
      from wrap_loop_count [OF this] show ?thesis using Cons.prems(2) by simp
    next
      case ne: False
      then have "wrap_loop w m xs (lines @ [py_join cur]) [x] = (lines', cur')"
        using Cons.prems(1) False by simp
      from wrap_loop_count [OF this] show ?thesis using Cons.prems(2) by simp
    qed
  qed
qed

lemma wrap_loop_all_alone:
  "wrap_loop w m words lines cur = (lines', cur') \<Longrightarrow> cur' = [] \<Longrightarrow>
     cur = [] \<and> length lines' = length lines + length words"
proof (induction words arbitrary: lines cur)
  case Nil
  then show ?case by simp
next
  case (Cons x xs)
  show ?case
  proof (cases "w (py_join (cur @ [x])) \<le> m")
    case True
    then have "wrap_loop w m xs lines (cur @ [x]) = (lines', cur')"
      using Cons.prems(1) by simp
    from wrap_loop_count [OF this] show ?thesis using Cons.prems(2) by simp
  next
    case False
    show ?thesis
    proof (cases "cur = []")
      case True
      then have "wrap_loop w m xs (lines @ [x]) [] = (lines', cur')"
        using Cons.prems(1) False by simp
      then show ?thesis using Cons.IH [of "lines @ [x]" "[]"] Cons.prems(2) True by simp
    next
      case ne: False
      then have "wrap_loop w m xs (lines @ [py_join cur]) [x] = (lines', cur')"
        using Cons.prems(1) False by simp
      from wrap_loop_count [OF this] show ?thesis using Cons.prems(2) by simp
    qed
  qed
qed

lemma cur_ok_flush: "cur_ok W w m cur \<Longrightarrow> cur \<noteq> [] \<Longrightarrow> line_ok W w m (py_join cur)"
  unfolding cur_ok_def line_ok_def by fastforce

lemma cur_ok_single: "x \<in> W \<Longrightarrow> cur_ok W w m [x]"
  unfolding cur_ok_def by blast

lemma cur_ok_Nil: "cur_ok W w m []"
  unfolding cur_ok_def by blast

lemma wrap_loop_fit:
  "wrap_loop w m words lines cur = (lines', cur') \<Longrightarrow>
   set words \<subseteq> W \<Longrightarrow>
   \<forall>l \<in> set lines. line_ok W w m l \<Longrightarrow>
   cur_ok W w m cur \<Longrightarrow>
   (\<forall>l \<in> set lines'. line_ok W w m l) \<and> cur_ok W w m cur'"
proof (induction words arbitrary: lines cur)
  case Nil
  then show ?case by simp
next
  case (Cons x xs)
  have xW: "x \<in> W" and xsW: "set xs \<subseteq> W" using Cons.prems(2) by simp_all
  show ?case
  proof (cases "w (py_join (cur @ [x])) \<le> m")
    case True
    then have r: "wrap_loop w m xs lines (cur @ [x]) = (lines', cur')"
      using Cons.prems(1) by simp
    have C: "cur_ok W w m (cur @ [x])"
      using True by (simp add: cur_ok_def)
    show ?thesis
      by (rule Cons.IH [OF r xsW Cons.prems(3) C])
  next
    case False
    show ?thesis
    proof (cases "cur = []")
      case True
      then have r: "wrap_loop w m xs (lines @ [x]) [] = (lines', cur')"
        using Cons.prems(1) False by simp
      have "m < w x" using False True by simp
      then have "line_ok W w m x" using xW by (simp add: line_ok_def)
      then have L: "\<forall>l \<in> set (lines @ [x]). line_ok W w m l"
        using Cons.prems(3) by simp
      show ?thesis
        by (rule Cons.IH [OF r xsW L cur_ok_Nil])
    next
      case ne: False
      then have r: "wrap_loop w m xs (lines @ [py_join cur]) [x] = (lines', cur')"
        using Cons.prems(1) False by simp
      have "line_ok W w m (py_join cur)"
        using Cons.prems(4) ne by (rule cur_ok_flush)
      then have L: "\<forall>l \<in> set (lines @ [py_join cur]). line_ok W w m l"
        using Cons.prems(3) by simp
      show ?thesis
        by (rule Cons.IH [OF r xsW L cur_ok_single [OF xW]])
    qed
  qed
qed

lemma prefixes_fit_snoc:
  "prefixes_fit w m acc (xs @ [y]) =
     (prefixes_fit w m acc xs \<and> w (py_join (acc @ xs @ [y])) \<le> m)"
  by (induction xs arbitrary: acc) auto

lemma line_greedy_snoc:
  "cur \<noteq> [] \<Longrightarrow> line_greedy w m (cur @ [y]) = (line_greedy w m cur \<and> w (py_join (cur @ [y])) \<le> m)"
  by (cases cur) (simp_all add: line_greedy_def prefixes_fit_snoc)

lemma line_greedy_single: "line_greedy w m [x]"
  by (simp add: line_greedy_def)

lemma breaks_forced_snoc:
  "breaks_forced w m (ls @ [l']) =
     (breaks_forced w m ls \<and> (ls = [] \<or> break_forced w m (last ls) l'))"
  by (induction ls rule: breaks_forced.induct) auto

lemma py_join_snoc: "cur \<noteq> [] \<Longrightarrow> py_join (cur @ [y]) = py_join cur @ '' '' @ y"
  by (induction cur rule: py_join.induct) simp_all

lemma tail_forced_flush:
  assumes "tail_forced w m lines cur" and "cur \<noteq> []" and "py_split l' = cur"
  shows "lines = [] \<or> break_forced w m (last lines) l'"
  using assms by (cases cur) (auto simp: tail_forced_def break_forced_def)

lemma tail_forced_alone:
  assumes "tail_forced w m lines []" and "py_split l' = [x]"
  shows "lines = [] \<or> break_forced w m (last lines) l'"
  using assms by (auto simp: tail_forced_def break_forced_def)

lemma tail_forced_append:
  assumes "tail_forced w m lines cur"
  shows "tail_forced w m lines (cur @ [x])"
  using assms by (cases cur) (auto simp: tail_forced_def)

lemma wrap_loop_greedy:
  "wrap_loop w m words lines cur = (lines', cur') \<Longrightarrow>
   \<forall>x \<in> set words. clean_word x \<Longrightarrow> \<forall>x \<in> set cur. clean_word x \<Longrightarrow>
   \<forall>l \<in> set lines. line_normal l \<and> line_greedy w m (py_split l) \<Longrightarrow>
   line_greedy w m cur \<Longrightarrow>
   breaks_forced w m lines \<Longrightarrow>
   tail_forced w m lines cur \<Longrightarrow>
   (\<forall>x \<in> set cur'. clean_word x)
   \<and> (\<forall>l \<in> set lines'. line_normal l \<and> line_greedy w m (py_split l))
   \<and> line_greedy w m cur'
   \<and> breaks_forced w m lines'
   \<and> tail_forced w m lines' cur'"
proof (induction words arbitrary: lines cur)
  case Nil
  then show ?case by simp
next
  case (Cons x xs)
  have x: "clean_word x" and xs: "\<forall>y \<in> set xs. clean_word y"
    using Cons.prems(2) by simp_all
  have sx: "py_split x = [x]" using py_split_join [of "[x]"] x by simp
  have sc: "py_split (py_join cur) = cur" using py_split_join Cons.prems(3) by simp
  show ?case
  proof (cases "w (py_join (cur @ [x])) \<le> m")
    case True
    then have r: "wrap_loop w m xs lines (cur @ [x]) = (lines', cur')"
      using Cons.prems(1) by simp
    have c: "\<forall>y \<in> set (cur @ [x]). clean_word y" using Cons.prems(3) x by simp
    have g: "line_greedy w m (cur @ [x])"
    proof (cases "cur = []")
      case True
      then show ?thesis by (simp add: line_greedy_single)
    next
      case False
      then show ?thesis using Cons.prems(5) True by (simp add: line_greedy_snoc)
    qed
    have t: "tail_forced w m lines (cur @ [x])"
      using Cons.prems(7) by (rule tail_forced_append)
    show ?thesis
      by (rule Cons.IH [OF r xs c Cons.prems(4) g Cons.prems(6) t])
  next
    case False
    show ?thesis
    proof (cases "cur = []")
      case True
      then have r: "wrap_loop w m xs (lines @ [x]) [] = (lines', cur')"
        using Cons.prems(1) False by simp
      have over: "m < w x" using False True by simp
      have c: "\<forall>y \<in> set ([]::string list). clean_word y" by simp
      have l: "\<forall>l \<in> set (lines @ [x]). line_normal l \<and> line_greedy w m (py_split l)"
        using Cons.prems(4) sx by (simp add: line_greedy_single line_normal_def)
      have g: "line_greedy w m []" by (simp add: line_greedy_def)
      have "lines = [] \<or> break_forced w m (last lines) x"
        using Cons.prems(7) True sx tail_forced_alone [of w m lines x x] by simp
      then have b: "breaks_forced w m (lines @ [x])"
        using Cons.prems(6) by (simp add: breaks_forced_snoc)
      have t: "tail_forced w m (lines @ [x]) []"
        using over by (simp add: tail_forced_def)
      show ?thesis
        by (rule Cons.IH [OF r xs c l g b t])
    next
      case ne: False
      then have r: "wrap_loop w m xs (lines @ [py_join cur]) [x] = (lines', cur')"
        using Cons.prems(1) False by simp
      have c: "\<forall>y \<in> set [x]. clean_word y" using x by simp
      have l: "\<forall>l \<in> set (lines @ [py_join cur]).
          line_normal l \<and> line_greedy w m (py_split l)"
        using Cons.prems(4,5) sc by (simp add: line_normal_def)
      have g: "line_greedy w m [x]" by (rule line_greedy_single)
      have "lines = [] \<or> break_forced w m (last lines) (py_join cur)"
        using Cons.prems(7) ne sc tail_forced_flush [of w m lines cur "py_join cur"] by simp
      then have b: "breaks_forced w m (lines @ [py_join cur])"
        using Cons.prems(6) by (simp add: breaks_forced_snoc)
      have "m < w (py_join cur @ '' '' @ x)"
        using False ne by (simp add: py_join_snoc)
      then have t: "tail_forced w m (lines @ [py_join cur]) [x]"
        by (simp add: tail_forced_def)
      show ?thesis
        by (rule Cons.IH [OF r xs c l g b t])
    qed
  qed
qed

text \<open>
  Claim C5, as stated, fails: a text that is a single word wider than the column comes
  back as one line, and so does a text whose width is due to runs of blanks between
  words that fit once joined by single blanks.
\<close>

theorem wrap_text_two_lines_counterexample:
  "3 < fixed_width ''abcdef'' \<and> wrap_text ''abcdef'' fixed_width 3 = [''abcdef'']
   \<and> 3 < fixed_width ''a    b'' \<and> wrap_text ''a    b'' fixed_width 3 = [''a b'']"
  by (simp add: fixed_width_def wrap_text_def py_split_def is_space_def)

text \<open>
  Claim C5, amended. For every text of at least two words whose words, joined by single
  blanks, render wider than the column, \<open>wrap_text\<close> returns at least two lines. For
  every text, each returned line renders within the column width or is a single word of
  the text that alone is wider than the column. The wrap is greedy: each returned line is
  its words joined by single blanks; a line of several words was built by appending words
  while the cumulative rendered width fitted, so each of its prefixes of two or more words
  renders within the column width; and a line is flushed only when the test fails, so at
  every break the line followed by the first word of the next line renders wider than the
  column, or the line alone does.
\<close>

theorem wrap_text_lines:
  "(2 \<le> length (py_split text) \<and> m < w (py_join (py_split text))
      \<longrightarrow> 2 \<le> length (wrap_text text w m))
   \<and> (\<forall>l \<in> set (wrap_text text w m).
         w l \<le> m \<or> (l \<in> set (py_split text) \<and> m < w l))
   \<and> (\<forall>l \<in> set (wrap_text text w m).
         line_normal l \<and> line_greedy w m (py_split l))
   \<and> breaks_forced w m (wrap_text text w m)"
proof -
  obtain lines cur where r: "wrap_loop w m (py_split text) [] [] = (lines, cur)"
    by (cases "wrap_loop w m (py_split text) [] []")
  have res: "wrap_text text w m = (if cur \<noteq> [] then lines @ [py_join cur] else lines)"
    using r by (simp add: wrap_text_def)
  have fit: "(\<forall>l \<in> set lines. line_ok (set (py_split text)) w m l)
      \<and> cur_ok (set (py_split text)) w m cur"
    by (rule wrap_loop_fit [OF r subset_refl _ cur_ok_Nil]) simp
  have part2: "\<forall>l \<in> set (wrap_text text w m). line_ok (set (py_split text)) w m l"
  proof (cases "cur = []")
    case True
    then show ?thesis using res fit by simp
  next
    case False
    have "cur_ok (set (py_split text)) w m cur" using fit by simp
    then have "line_ok (set (py_split text)) w m (py_join cur)"
      using False by (rule cur_ok_flush)
    then show ?thesis using res fit False by simp
  qed
  have part1: "2 \<le> length (wrap_text text w m)"
    if two: "2 \<le> length (py_split text)" and wide: "m < w (py_join (py_split text))"
  proof (cases "cur = []")
    case True
    have "length lines = length [] + length (py_split text)"
      using wrap_loop_all_alone [OF r True] by simp
    then show ?thesis using res True two by simp
  next
    case False
    have "lines \<noteq> []"
    proof
      assume e: "lines = []"
      have ne: "py_split text \<noteq> []" using two by auto
      have "length lines = length ([]::string list)" using e by simp
      from wrap_loop_no_flush [OF r this] ne
      have "w (py_join ([] @ py_split text)) \<le> m" by blast
      then show False using wide by simp
    qed
    then have "1 \<le> length lines" by (cases lines) simp_all
    then show ?thesis using res False by simp
  qed
  have cl: "\<forall>x \<in> set (py_split text). clean_word x"
    using py_split_clean by blast
  have e: "\<forall>y \<in> set ([]::string list). clean_word y" by simp
  have l0: "\<forall>l \<in> set ([]::string list). line_normal l \<and> line_greedy w m (py_split l)"
    by simp
  have g0: "line_greedy w m []" by (simp add: line_greedy_def)
  have b0: "breaks_forced w m []" by simp
  have t0: "tail_forced w m [] []" by (simp add: tail_forced_def)
  note inv = wrap_loop_greedy [OF r cl e l0 g0 b0 t0]
  have part3: "(\<forall>l \<in> set (wrap_text text w m). line_normal l \<and> line_greedy w m (py_split l))
      \<and> breaks_forced w m (wrap_text text w m)"
  proof (cases "cur = []")
    case True
    then show ?thesis using res inv by simp
  next
    case False
    have sc: "py_split (py_join cur) = cur" using py_split_join inv by simp
    have "lines = [] \<or> break_forced w m (last lines) (py_join cur)"
      using inv False sc tail_forced_flush [of w m lines cur "py_join cur"] by simp
    then have "breaks_forced w m (lines @ [py_join cur])"
      using inv by (simp add: breaks_forced_snoc)
    then show ?thesis using res inv False sc by (simp add: line_normal_def)
  qed
  show ?thesis using part1 part2 part3 unfolding line_ok_def by blast
qed

theorem wrap_text_lines_witness:
  "2 \<le> length (py_split ''ab cd efghij k l'')
   \<and> 5 < fixed_width (py_join (py_split ''ab cd efghij k l''))
   \<and> wrap_text ''ab cd efghij k l'' fixed_width 5 = [''ab cd'', ''efghij'', ''k l'']
   \<and> 2 \<le> length (wrap_text ''ab cd efghij k l'' fixed_width 5)
   \<and> ''efghij'' \<in> set (py_split ''ab cd efghij k l'')
   \<and> 5 < fixed_width ''efghij''
   \<and> line_normal ''ab cd''
   \<and> line_greedy fixed_width 5 (py_split ''ab cd'')
   \<and> breaks_forced fixed_width 5 (wrap_text ''ab cd efghij k l'' fixed_width 5)
   \<and> \<not> breaks_forced fixed_width 5 (py_split ''ab cd'')"
proof -
  note t = wrap_text_lines [of "''ab cd efghij k l''" 5 fixed_width]
  have h: "2 \<le> length (py_split ''ab cd efghij k l'')
      \<and> 5 < fixed_width (py_join (py_split ''ab cd efghij k l''))"
    by (simp add: fixed_width_def py_split_def is_space_def)
  have v: "wrap_text ''ab cd efghij k l'' fixed_width 5 = [''ab cd'', ''efghij'', ''k l'']"
    by (simp add: fixed_width_def wrap_text_def py_split_def is_space_def)
  have e1: "''efghij'' \<in> set (wrap_text ''ab cd efghij k l'' fixed_width 5)"
    and e2: "''ab cd'' \<in> set (wrap_text ''ab cd efghij k l'' fixed_width 5)"
    by (simp_all add: v)
  have n: "\<not> fixed_width ''efghij'' \<le> 5"
    by (simp add: fixed_width_def)
  have a: "2 \<le> length (wrap_text ''ab cd efghij k l'' fixed_width 5)"
    using t h by blast
  have b: "''efghij'' \<in> set (py_split ''ab cd efghij k l'') \<and> 5 < fixed_width ''efghij''"
    using t e1 n by blast
  have c: "line_normal ''ab cd'' \<and> line_greedy fixed_width 5 (py_split ''ab cd'')"
    using t e2 by blast
  have d: "breaks_forced fixed_width 5 (wrap_text ''ab cd efghij k l'' fixed_width 5)"
    using t by blast
  have m: "\<not> breaks_forced fixed_width 5 (py_split ''ab cd'')"
    by (simp add: break_forced_def fixed_width_def py_split_def is_space_def)
  show ?thesis using h v a b c d m by simp
qed

section \<open>The track number is a string\<close>

text \<open>
  \<open>get_track_metadata\<close> takes the track number from the tag \<open>TRACKNUMBER\<close>, a
  \<open>str\<close>, or makes it the \<open>str\<close> \<open>'1'\<close>; it never converts it. Both callers format it
  with \<open>:02d\<close>, which raises for a \<open>str\<close>.
\<close>

lemma read_metadata_str:
  "read_metadata env p = Inr m \<Longrightarrow> \<exists>s. md_track_number m = PyStr s"
  by (auto simp: read_metadata_def split: sum.splits)

lemma get_track_metadata_str: "\<exists>s. md_track_number (get_track_metadata env p) = PyStr s"
proof (cases "read_metadata env p")
  case (Inl e)
  then show ?thesis by (simp add: get_track_metadata_def default_metadata_def)
next
  case (Inr m)
  then show ?thesis using read_metadata_str [OF Inr] by (simp add: get_track_metadata_def)
qed

lemma track_title_fails:
  "format_02d (md_track_number (get_track_metadata env p)) = Inl format_d_error"
proof -
  obtain s where "md_track_number (get_track_metadata env p) = PyStr s"
    using get_track_metadata_str by blast
  then show ?thesis by (simp add: format_d_error_def)
qed

lemma process_track_fails:
  "\<exists>e. fst (process_track env jb cb n i f st) = Some e"
  using track_title_fails [of env f]
  by (auto simp: process_track_def Let_def emit_def split: sum.splits)

lemma process_track_no_chapter:
  "chapter_data (snd (process_track env jb cb n i f st)) = chapter_data st"
  using track_title_fails [of env f]
  by (auto simp: process_track_def Let_def emit_def split: sum.splits)

lemma process_tracks_fails:
  "fs \<noteq> [] \<Longrightarrow> \<exists>e. fst (process_tracks env jb cb n i fs st) = Some e"
proof (cases fs)
  case Nil
  assume "fs \<noteq> []"
  then show ?thesis using Nil by simp
next
  case (Cons f rest)
  obtain e where "fst (process_track env jb cb n i f st) = Some e"
    using process_track_fails by blast
  then show ?thesis using Cons
    by (cases "process_track env jb cb n i f st") auto
qed

lemma process_tracks_no_chapter:
  "chapter_data (snd (process_tracks env jb cb n i fs st)) = chapter_data st"
proof (cases fs)
  case Nil
  then show ?thesis by simp
next
  case (Cons f rest)
  obtain e where e: "fst (process_track env jb cb n i f st) = Some e"
    using process_track_fails by blast
  have "chapter_data (snd (process_track env jb cb n i f st)) = chapter_data st"
    by (rule process_track_no_chapter)
  then show ?thesis using Cons e
    by (cases "process_track env jb cb n i f st") auto
qed

lemma convert_to_mkv_never_succeeds: "\<exists>e. fst (convert_to_mkv env jb cb) = Inl e"
proof (cases "flac_files jb = [] \<or> cover_art_path jb = [] \<or> output_path jb = []")
  case True
  then show ?thesis by (simp add: convert_to_mkv_def)
next
  case False
  then have "flac_files jb \<noteq> []" by simp
  then obtain e where "fst (convert_loop env jb cb) = Some e"
    using process_tracks_fails unfolding convert_loop_def by blast
  then show ?thesis using False
    by (cases "convert_loop env jb cb") (auto simp: convert_to_mkv_def)
qed

lemma get_track_metadata_default:
  "flac_open env p = Inl e \<Longrightarrow> get_track_metadata env p = default_metadata env p"
  by (simp add: get_track_metadata_def read_metadata_def)

text \<open>The example run is evaluated by unfolding the following definitions.\<close>

lemmas demo_defs = demo_env_def demo_job_def demo_audio_def demo_tags_def
lemmas run_defs = convert_to_mkv_def convert_loop_def process_track_def emit_def
  get_track_metadata_def read_metadata_def get_first_def default_metadata_def
  create_video_frame_def cover_ops_def text_ops_def load_fonts_def resize_def
  frame_path_of_def video_path_of_def encode_cmd_def path_join_def

text \<open>
  The outcome of \<open>convert_to_mkv\<close>: the validation error, or what the body of the loop
  raises at the first track. It does not depend on whether the cover art loads.
\<close>

lemma fst_process_track:
  "fst (process_track env jb cb n i f st) = Some (track_exc env i f)"
  using track_title_fails [of env f]
  by (simp add: process_track_def Let_def emit_def track_exc_def track_cmd_def split: sum.splits)

lemma fst_process_tracks:
  "fst (process_tracks env jb cb n i (f # rest) st) = Some (track_exc env i f)"
  using fst_process_track [of env jb cb n i f st]
  by (cases "process_track env jb cb n i f st") auto

lemma convert_outcome:
  "fst (convert_to_mkv env jb cb) =
     (if flac_files jb = [] \<or> cover_art_path jb = [] \<or> output_path jb = []
      then Inl (ValueError ''Missing required files or output path'')
      else Inl (wrap_exc (track_exc env 0 (hd (flac_files jb)))))"
proof (cases "flac_files jb")
  case Nil
  then show ?thesis by (simp add: convert_to_mkv_def)
next
  case (Cons f rest)
  have "fst (convert_loop env jb cb) = Some (track_exc env 0 f)"
    using Cons fst_process_tracks [of env jb cb _ 0 f rest] by (simp add: convert_loop_def)
  then show ?thesis using Cons
    by (cases "convert_loop env jb cb") (auto simp: convert_to_mkv_def)
qed

lemma default_metadata_image_open:
  "default_metadata (env\<lparr> image_open := io \<rparr>) f = default_metadata env f"
  by (simp add: default_metadata_def)

lemma read_metadata_image_open:
  "read_metadata (env\<lparr> image_open := io \<rparr>) f = read_metadata env f"
  by (simp add: read_metadata_def)

lemma get_track_metadata_image_open:
  "get_track_metadata (env\<lparr> image_open := io \<rparr>) f = get_track_metadata env f"
  by (simp add: get_track_metadata_def read_metadata_image_open default_metadata_image_open
      split: sum.splits)

lemma track_exc_image_open:
  "track_exc (env\<lparr> image_open := io \<rparr>) i f = track_exc env i f"
  by (simp add: track_exc_def track_cmd_def frame_path_of_def video_path_of_def
      get_track_metadata_image_open)

lemma convert_outcome_image_open:
  "fst (convert_to_mkv (env\<lparr> image_open := io \<rparr>) jb cb) = fst (convert_to_mkv env jb cb)"
  by (simp add: convert_outcome track_exc_image_open)

section \<open>Runs that stop at the first chapter title\<close>

text \<open>
  Claim C1 says that the chapter list has one entry per input track, in input order,
  contiguous from 0. On the example album of two tracks, both read without error, the
  loop ends at the first track with the exception of the format field, before
  \<open>chapter_data.append\<close>: the chapter list is empty while the input has two tracks.
\<close>

theorem chapter_list_failing_run:
  "fst (convert_loop demo_env (demo_job [''/m/01.flac'', ''/m/02.flac'']) True) = Some format_d_error
   \<and> chapter_data (snd (convert_loop demo_env (demo_job [''/m/01.flac'', ''/m/02.flac'']) True)) = []
   \<and> length (flac_files (demo_job [''/m/01.flac'', ''/m/02.flac''])) = 2"
  by (simp add: demo_defs run_defs format_d_error_def Let_def)

text \<open>
  Claim C2 says that building the chapter title never fails, whatever the track number
  the metadata reader returned. The reader returns the tag \<open>'2'\<close> verbatim for the second
  example track and the default \<open>'1'\<close> for a file it cannot read; for both, the format
  field raises, and a job of that one track ends with \<open>RuntimeError\<close>.
\<close>

theorem chapter_title_failing_input:
  "md_track_number (get_track_metadata demo_env ''/m/02.flac'') = PyStr ''2''
   \<and> format_02d (md_track_number (get_track_metadata demo_env ''/m/02.flac'')) = Inl format_d_error
   \<and> md_track_number (get_track_metadata demo_env ''/m/missing.flac'') = PyStr ''1''
   \<and> format_02d (md_track_number (get_track_metadata demo_env ''/m/missing.flac'')) = Inl format_d_error
   \<and> fst (convert_to_mkv demo_env (demo_job [''/m/02.flac'']) False)
       = Inl (RuntimeError (''Conversion error: '' @ exc_str format_d_error))"
  by (simp add: demo_defs run_defs format_d_error_def Let_def)

text \<open>
  Claim C3 says that a track whose tags cannot be read gets the default metadata and that
  the job completes with it. For the unreadable file \<open>/m/03 Bad.flac\<close> the reader returns
  the default metadata, with the track number \<open>'1'\<close>; the job of that one track then ends
  with \<open>RuntimeError\<close>.
\<close>

theorem default_metadata_failing_run:
  "get_track_metadata demo_env ''/m/03 Bad.flac''
     = \<lparr> md_title = ''03 Bad'', md_artist = ''Unknown Artist'', md_album = ''Unknown Album'',
         md_track_number = PyStr ''1'', md_duration = 0, md_sample_rate = 44100,
         md_bits_per_sample = 16, md_channels = 2 \<rparr>
   \<and> fst (convert_to_mkv demo_env (demo_job [''/m/03 Bad.flac'']) False)
       = Inl (RuntimeError (''Conversion error: '' @ exc_str format_d_error))"
  by (simp add: demo_defs run_defs format_d_error_def Let_def basename_def splitext_root_def)


section \<open>The cover art on the left half of the frame\<close>

lemma same_aspect_square:
  "same_aspect (cover\<lparr> im_width := 860, im_height := 860 \<rparr>) cover
     = (im_width cover = im_height cover)"
  by (auto simp: same_aspect_def)

text \<open>
  Claim C4, as stated, fails: the example cover is 1000 by 500 pixels, and the image
  pasted into the frame is 860 by 860 pixels, which does not have the proportions of the
  source.
\<close>

theorem cover_aspect_counterexample:
  "image_open demo_env ''cover.jpg'' = Inr demo_cover
   \<and> im_width demo_cover \<noteq> im_height demo_cover
   \<and> take 1 (fr_ops (create_video_frame demo_env ''cover.jpg'' ''Intro'' (PyStr ''1'') ''A'' ''B''))
       = [Paste (resize demo_cover 860 860) 50 110]
   \<and> \<not> same_aspect (resize demo_cover 860 860) demo_cover"
  by (simp add: demo_env_def demo_cover_def create_video_frame_def cover_ops_def resize_def
      same_aspect_def Let_def)

text \<open>
  Claim C4, amended. For every artwork image that loads, whatever its width and height,
  \<open>create_video_frame\<close> resizes it to a square of 860 by 860 pixels and pastes it at
  (50, 110) as the first drawing call on the 1920x1080 frame: within the left half of the
  frame with symmetric padding, centred on both axes (50 pixels to its left and to its
  right in the half of 960 pixels, 110 pixels above and below it). The proportions of the
  source are not kept: the scaled image has the width-to-height ratio of the source
  exactly when the width and the height of the source are equal.
\<close>

theorem cover_fixed_square:
  assumes "image_open env art = Inr cover"
  shows "fr_width (create_video_frame env art t tn a al) = 1920
    \<and> fr_height (create_video_frame env art t tn a al) = 1080
    \<and> take 1 (fr_ops (create_video_frame env art t tn a al))
        = [Paste (cover\<lparr> im_width := 860, im_height := 860 \<rparr>) 50 110]
    \<and> centred_left (create_video_frame env art t tn a al)
        (hd (fr_ops (create_video_frame env art t tn a al)))
    \<and> same_aspect (cover\<lparr> im_width := 860, im_height := 860 \<rparr>) cover
        = (im_width cover = im_height cover)"
  using assms
  by (simp add: create_video_frame_def cover_ops_def resize_def Let_def centred_left_def
      same_aspect_square)

theorem cover_fixed_square_witness:
  "image_open demo_env ''cover.jpg'' = Inr demo_cover
   \<and> take 1 (fr_ops (create_video_frame demo_env ''cover.jpg'' ''Intro'' (PyStr ''1'') ''A'' ''B''))
       = [Paste \<lparr> im_source = ''cover.jpg'', im_width = 860, im_height = 860 \<rparr> 50 110]
   \<and> centred_left (create_video_frame demo_env ''cover.jpg'' ''Intro'' (PyStr ''1'') ''A'' ''B'')
       (Paste \<lparr> im_source = ''cover.jpg'', im_width = 860, im_height = 860 \<rparr> 50 110)"
proof -
  have h: "image_open demo_env ''cover.jpg'' = Inr demo_cover"
    by (simp add: demo_env_def demo_cover_def)
  note t = cover_fixed_square [OF h, of "''Intro''" "PyStr ''1''" "''A''" "''B''"]
  have p: "take 1 (fr_ops (create_video_frame demo_env ''cover.jpg'' ''Intro'' (PyStr ''1'') ''A'' ''B''))
       = [Paste (demo_cover\<lparr> im_width := 860, im_height := 860 \<rparr>) 50 110]"
    using t by blast
  have q: "hd (fr_ops (create_video_frame demo_env ''cover.jpg'' ''Intro'' (PyStr ''1'') ''A'' ''B''))
       = Paste (demo_cover\<lparr> im_width := 860, im_height := 860 \<rparr>) 50 110"
    using p by (cases "fr_ops (create_video_frame demo_env ''cover.jpg'' ''Intro'' (PyStr ''1'') ''A'' ''B'')")
      simp_all
  have c: "centred_left (create_video_frame demo_env ''cover.jpg'' ''Intro'' (PyStr ''1'') ''A'' ''B'')
       (hd (fr_ops (create_video_frame demo_env ''cover.jpg'' ''Intro'' (PyStr ''1'') ''A'' ''B'')))"
    using t by blast
  show ?thesis using h p c unfolding q by (simp add: demo_cover_def)
qed

section \<open>The placeholder for cover art that does not load\<close>

text \<open>
  Both \<open>try\<close> blocks of \<open>create_video_frame\<close> catch every exception, so the function
  returns a frame on every input. The text block never pastes an image.
\<close>

lemma draw_lines_no_paste:
  "draw_lines x y f ls = (ops, y') \<Longrightarrow> filter is_paste ops = []"
proof (induction ls arbitrary: y ops y')
  case Nil
  then show ?case by simp
next
  case (Cons l ls)
  obtain ops1 y1 where r: "draw_lines x (y + 80) f ls = (ops1, y1)"
    by (cases "draw_lines x (y + 80) f ls")
  then have "filter is_paste ops1 = []" by (rule Cons.IH)
  then show ?case using Cons.prems r by auto
qed

lemma text_ops_no_paste:
  "text_ops env t tn a al w h = Inr ops \<Longrightarrow> filter is_paste ops = []"
proof -
  assume a: "text_ops env t tn a al w h = Inr ops"
  obtain tf inf sf where f: "load_fonts env = (tf, inf, sf)"
    by (cases "load_fonts env")
  obtain s where s: "format_02d tn = Inr s"
    using a f by (cases "format_02d tn") (simp_all add: text_ops_def Let_def)
  obtain lops y1 where d: "draw_lines (w div 2 + 50) (h div 2 - 100) tf
      (wrap_text (s @ ''. '' @ t) (textbbox_right env tf) (w div 2 - 100)) = (lops, y1)"
    by (cases "draw_lines (w div 2 + 50) (h div 2 - 100) tf
      (wrap_text (s @ ''. '' @ t) (textbbox_right env tf) (w div 2 - 100))")
  have "filter is_paste lops = []" using d by (rule draw_lines_no_paste)
  then show ?thesis using a f s d by (auto simp: text_ops_def Let_def)
qed

text \<open>
  Claim C9. For every artwork path that cannot be loaded as an image,
  \<open>create_video_frame\<close> returns a frame of 1920 by 1080 pixels whose first two drawing
  calls are the white outline of the box from (50, 110) to (910, 970) and the label
  \<open>No Cover Art\<close> anchored at its centre (480, 540), and that has no pasted image. The
  failure is not surfaced as a job failure: the result of \<open>convert_to_mkv\<close>, value or
  exception, is the same whatever the image loader does, so it is the one the job has
  when the artwork loads.
\<close>

theorem placeholder_frame:
  assumes "image_open env art = Inl e"
  shows "fr_width (create_video_frame env art t tn a al) = 1920
    \<and> fr_height (create_video_frame env art t tn a al) = 1080
    \<and> take 2 (fr_ops (create_video_frame env art t tn a al))
        = [Rectangle 50 110 910 970 ''white'' 2,
           DrawText 480 540 ''No Cover Art'' ''white'' None (Some ''mm'')]
    \<and> filter is_paste (fr_ops (create_video_frame env art t tn a al)) = []
    \<and> fst (convert_to_mkv env jb cb) = fst (convert_to_mkv (env\<lparr> image_open := io \<rparr>) jb cb)"
proof (cases "text_ops env t tn a al 1920 1080")
  case (Inl x)
  then show ?thesis using assms
    by (simp add: create_video_frame_def cover_ops_def Let_def convert_outcome_image_open)
next
  case (Inr ops)
  then show ?thesis using assms text_ops_no_paste [OF Inr]
    by (simp add: create_video_frame_def cover_ops_def Let_def convert_outcome_image_open)
qed

theorem placeholder_frame_witness:
  "image_open demo_env ''missing.jpg'' = Inl (OtherError ''cannot identify image file'')
   \<and> take 2 (fr_ops (create_video_frame demo_env ''missing.jpg'' ''Intro'' (PyStr ''1'') ''A'' ''B''))
        = [Rectangle 50 110 910 970 ''white'' 2,
           DrawText 480 540 ''No Cover Art'' ''white'' None (Some ''mm'')]
   \<and> fr_width (create_video_frame demo_env ''missing.jpg'' ''Intro'' (PyStr ''1'') ''A'' ''B'') = 1920
   \<and> fr_height (create_video_frame demo_env ''missing.jpg'' ''Intro'' (PyStr ''1'') ''A'' ''B'') = 1080
   \<and> filter is_paste
        (fr_ops (create_video_frame demo_env ''missing.jpg'' ''Intro'' (PyStr ''1'') ''A'' ''B'')) = []"
proof -
  have h: "image_open demo_env ''missing.jpg'' = Inl (OtherError ''cannot identify image file'')"
    by (simp add: demo_env_def)
  show ?thesis
    using h placeholder_frame [OF h, of "''Intro''" "PyStr ''1''" "''A''" "''B''"] by simp
qed

section \<open>The chapter file\<close>










section \<open>The encode request of a track\<close>








end
